theory Spec2Isabelle
  imports Main
begin

section \<open>JavaScript values\<close>

text \<open>
  The reducers of \<^verbatim>\<open>ExtractingStateLogicIntoAReducer.js\<close> and
  \<^verbatim>\<open>PassingDataDeeplyWithContext.js\<close> only read properties, compare them with
  \<^verbatim>\<open>===\<close>, build strings and build new objects and arrays.  The property values
  they handle are JavaScript primitives.  Numbers are the integers they denote (contact
  ids, task ids; no fractions, no \<^verbatim>\<open>NaN\<close>, and \<^verbatim>\<open>ToString\<close> below prints
  them in decimal, as JavaScript does for integers of magnitude below \<open>10\<^sup>2\<^sup>1\<close>);
  \<^verbatim>\<open>undefined\<close> is also what reading an absent property yields.
\<close>

datatype prim = Undefined | Null | Bool bool | Num int | Str string

text \<open>What the code throws: \<^verbatim>\<open>Error(msg)\<close>, or the engine's \<^verbatim>\<open>TypeError\<close> on
  reading a property of \<^verbatim>\<open>undefined\<close>.\<close>

datatype error = Error string | TypeError

text \<open>Decimal digits of a natural number, most significant first.\<close>

function showNat :: "nat \<Rightarrow> string" where
  "showNat n =
     (if n < 10 then [''0123456789'' ! n]
      else showNat (n div 10) @ [''0123456789'' ! (n mod 10)])"
  by pat_completeness auto
termination
  by (relation "measure (\<lambda>n. n)") auto

declare showNat.simps [simp del]

text \<open>
  \<^verbatim>\<open>ToString\<close> on a primitive, as used by \<^verbatim>\<open>'Unknown action: ' + action.type\<close>,
  by the template literal of \<^verbatim>\<open>tasksReducer\<close> and by the computed property key
  \<^verbatim>\<open>[state.selectedId]\<close>.
\<close>

fun toString :: "prim \<Rightarrow> string" where
  "toString Undefined = ''undefined''"
| "toString Null = ''null''"
| "toString (Bool b) = (if b then ''true'' else ''false'')"
| "toString (Num i) = (if i < 0 then ''-'' @ showNat (nat (- i)) else showNat (nat i))"
| "toString (Str s) = s"

text \<open>A computed property key \<^verbatim>\<open>[k]\<close> names the property \<^verbatim>\<open>ToString(k)\<close>.\<close>

definition toPropertyKey :: "prim \<Rightarrow> string" where
  "toPropertyKey k = toString k"

text \<open>\<^verbatim>\<open>a === b\<close> on primitives of this universe (no \<^verbatim>\<open>NaN\<close>) is equality of values.\<close>

definition strictEq :: "prim \<Rightarrow> prim \<Rightarrow> bool" where
  "strictEq a b = (a = b)"

section \<open>Actions and states\<close>

text \<open>
  A task object \<^verbatim>\<open>{id, text, done}\<close>.  (\<^verbatim>\<open>id\<close>, \<^verbatim>\<open>text\<close> and \<^verbatim>\<open>done\<close> are
  taken names, hence the prefix.)
\<close>

record task =
  task_id :: prim
  task_text :: prim
  task_done :: prim

text \<open>
  An action object, by the properties the two reducers read from it:
  \<^verbatim>\<open>type\<close>, \<^verbatim>\<open>contactId\<close>, \<^verbatim>\<open>message\<close>, \<^verbatim>\<open>id\<close>, \<^verbatim>\<open>text\<close> and
  \<^verbatim>\<open>task\<close>.  A property the action does not have reads as \<open>Undefined\<close>; for
  \<^verbatim>\<open>task\<close>, which holds an object, \<open>None\<close> stands for the absent property.
  The type \<open>'t\<close> is how the task object is given: by its value (\<open>task\<close>) or, in the
  model with a heap below, by its address.
\<close>

record 't action =
  type :: prim
  contactId :: prim
  message :: prim
  action_id :: prim
  action_text :: prim
  task :: "'t option"

text \<open>
  The messenger state \<^verbatim>\<open>{selectedId, messages}\<close>; \<^verbatim>\<open>messages\<close> is an object used
  as a dictionary from property keys to texts.  The spread \<^verbatim>\<open>...state\<close> copies every
  property of the state, also ones beyond these two: the reducer is defined on the
  extensible record.
\<close>

record messenger_state =
  selectedId :: prim
  messages :: "string \<rightharpoonup> prim"

definition initialState :: messenger_state where
  "initialState = \<lparr>selectedId = Num 0, messages = [''0'' \<mapsto> Str '''']\<rparr>"

section \<open>The reducers\<close>

text \<open>
  \<^verbatim>\<open>messengerReducer(state, action)\<close>: a \<^verbatim>\<open>switch\<close> on \<^verbatim>\<open>action.type\<close> whose
  default case throws.
\<close>

definition messengerReducer ::
  "'a messenger_state_scheme \<Rightarrow> 't action \<Rightarrow> error + 'a messenger_state_scheme" where
  "messengerReducer state action =
     (if strictEq (type action) (Str ''changed_selection'') then
        Inr (state\<lparr>selectedId := contactId action\<rparr>)
      else if strictEq (type action) (Str ''edited_message'') then
        Inr (state\<lparr>messages :=
               (messages state)(toPropertyKey (selectedId state) \<mapsto> message action)\<rparr>)
      else if strictEq (type action) (Str ''sent_message'') then
        Inr (state\<lparr>messages :=
               (messages state)(toPropertyKey (selectedId state) \<mapsto> Str '''')\<rparr>)
      else Inl (Error (''Unknown action: '' @ toString (type action))))"

text \<open>
  \<^verbatim>\<open>Array.prototype.map\<close> and \<^verbatim>\<open>Array.prototype.filter\<close> with a callback that may
  throw: the callback runs on the elements from left to right, the first exception ends
  the call, and on an empty array the callback does not run at all.
\<close>

fun array_map :: "('a \<Rightarrow> error + 'b) \<Rightarrow> 'a list \<Rightarrow> error + 'b list" where
  "array_map f [] = Inr []"
| "array_map f (x # xs) =
     (case f x of
        Inl e \<Rightarrow> Inl e
      | Inr y \<Rightarrow> (case array_map f xs of Inl e \<Rightarrow> Inl e | Inr ys \<Rightarrow> Inr (y # ys)))"

fun array_filter :: "('a \<Rightarrow> error + bool) \<Rightarrow> 'a list \<Rightarrow> error + 'a list" where
  "array_filter p [] = Inr []"
| "array_filter p (x # xs) =
     (case p x of
        Inl e \<Rightarrow> Inl e
      | Inr b \<Rightarrow>
          (case array_filter p xs of
             Inl e \<Rightarrow> Inl e
           | Inr ys \<Rightarrow> Inr (if b then x # ys else ys)))"

text \<open>
  The callbacks of the \<^verbatim>\<open>'changed'\<close> and \<^verbatim>\<open>'deleted'\<close> branches.  Both evaluate
  \<^verbatim>\<open>action.task.id\<close> once per element, inside the callback: a \<^verbatim>\<open>TypeError\<close>
  when \<^verbatim>\<open>action.task\<close> is undefined.
\<close>

definition changed_callback :: "task action \<Rightarrow> task \<Rightarrow> error + task" where
  "changed_callback action t =
     (case task action of
        None \<Rightarrow> Inl TypeError
      | Some changed \<Rightarrow> Inr (if strictEq (task_id t) (task_id changed) then changed else t))"

definition deleted_callback :: "task action \<Rightarrow> task \<Rightarrow> error + bool" where
  "deleted_callback action t =
     (case task action of
        None \<Rightarrow> Inl TypeError
      | Some deleted \<Rightarrow> Inr (\<not> strictEq (task_id t) (task_id deleted)))"

text \<open>\<^verbatim>\<open>tasksReducer(tasks, action)\<close>.\<close>

definition tasksReducer :: "task list \<Rightarrow> task action \<Rightarrow> error + task list" where
  "tasksReducer tasks action =
     (if strictEq (type action) (Str ''added'') then
        Inr (tasks @ [\<lparr>task_id = action_id action, task_text = action_text action,
                       task_done = Bool False\<rparr>])
      else if strictEq (type action) (Str ''changed'') then
        array_map (changed_callback action) tasks
      else if strictEq (type action) (Str ''deleted'') then
        array_filter (deleted_callback action) tasks
      else Inl (Error (''Unknown action: '' @ toString (type action))))"

text \<open>The object \<^verbatim>\<open>{}\<close> as an action: every property reads as undefined.\<close>

definition emptyAction :: "'t action" where
  "emptyAction =
     \<lparr>type = Undefined, contactId = Undefined, message = Undefined,
      action_id = Undefined, action_text = Undefined, task = None\<rparr>"

section \<open>The state container\<close>

text \<open>
  Modelled from the spec: the State Store of section 4.1, which is the \<^verbatim>\<open>useState\<close>
  hook of the host runtime and not part of this repository.  The store holds the current
  snapshot; \<^verbatim>\<open>setState\<close> replaces it and notifies the subscribers (counted here).
\<close>

record 's store =
  snapshot :: 's
  notified :: nat

text \<open>
  Modelled from the spec: the store at container initialization holds the initial value
  (section 3, Lifecycle) and has notified nobody yet.
\<close>

definition useState :: "'s \<Rightarrow> 's store" where
  "useState initial = \<lparr>snapshot = initial, notified = 0\<rparr>"

text \<open>
  Modelled from the spec: \<^verbatim>\<open>getState() -> State\<close> returns the current snapshot and
  has no side effect (section 4.1).
\<close>

definition getState :: "'s store \<Rightarrow> 's" where
  "getState st = snapshot st"

text \<open>
  Modelled from the spec: \<^verbatim>\<open>setState(next)\<close> replaces the snapshot and notifies
  the subscribers after the replacement (section 4.1).
\<close>

definition setState :: "'s \<Rightarrow> 's store \<Rightarrow> 's store" where
  "setState next st = st\<lparr>snapshot := next, notified := Suc (notified st)\<rparr>"

text \<open>
  Modelled from the spec: \<^verbatim>\<open>setState\<close> called with an updater function, after the
  Dispatcher of section 4.2: the next state is computed from the current one and then
  stored; when the computation raises, the error propagates and the store is left as it
  was.  The result is the exception, if any, and the store afterwards.
\<close>

definition setStateWith :: "('s \<Rightarrow> error + 's) \<Rightarrow> 's store \<Rightarrow> error option \<times> 's store" where
  "setStateWith updater st =
     (case updater (getState st) of
        Inl e \<Rightarrow> (Some e, st)
      | Inr next \<Rightarrow> (None, setState next st))"

text \<open>
  \<^verbatim>\<open>useMyReducer\<close>:
  \<^verbatim>\<open>const dispatch = (action) => setState(prev => reducer(prev, action))\<close>.
\<close>

definition dispatch ::
  "('s \<Rightarrow> 'a \<Rightarrow> error + 's) \<Rightarrow> 'a \<Rightarrow> 's store \<Rightarrow> error option \<times> 's store" where
  "dispatch reducer action = setStateWith (\<lambda>prev. reducer prev action)"

definition useMyReducer ::
  "('s \<Rightarrow> 'a \<Rightarrow> error + 's) \<Rightarrow> 's \<Rightarrow>
     's store \<times> ('a \<Rightarrow> 's store \<Rightarrow> error option \<times> 's store)" where
  "useMyReducer reducer initial = (useState initial, dispatch reducer)"

text \<open>
  A caller dispatching \<^verbatim>\<open>a1, ..., an\<close> one after the other; an exception leaves the
  sequence at the dispatch that raised it.
\<close>

fun dispatch_all ::
  "('a \<Rightarrow> 's store \<Rightarrow> error option \<times> 's store) \<Rightarrow> 'a list \<Rightarrow> 's store \<Rightarrow>
     error option \<times> 's store" where
  "dispatch_all d [] st = (None, st)"
| "dispatch_all d (a # as) st =
     (case d a st of
        (Some e, st') \<Rightarrow> (Some e, st')
      | (None, st') \<Rightarrow> dispatch_all d as st')"

text \<open>What the caller of such a sequence observes: the exception, or the final state.\<close>

definition observed :: "error option \<times> 's store \<Rightarrow> error + 's" where
  "observed r = (case fst r of Some e \<Rightarrow> Inl e | None \<Rightarrow> Inr (getState (snd r)))"

text \<open>
  Independent sequential replay, in the words of the spec: the nested application
  \<^verbatim>\<open>reducer(...reducer(reducer(initialState, a1), a2)..., an)\<close>, in which an exception
  of an inner call is the exception of the whole expression.
\<close>

fun replay :: "('s \<Rightarrow> 'a \<Rightarrow> error + 's) \<Rightarrow> 's \<Rightarrow> 'a list \<Rightarrow> error + 's" where
  "replay reducer s [] = Inr s"
| "replay reducer s (a # as) =
     (case reducer s a of Inl e \<Rightarrow> Inl e | Inr s' \<Rightarrow> replay reducer s' as)"

text \<open>
  The Delete button of the \<^verbatim>\<open>Task\<close> component:
  \<^verbatim>\<open>dispatch({type: 'deleted', id: task.id})\<close>.  The action has no \<^verbatim>\<open>task\<close>
  property.
\<close>

definition delete_button_action :: "task \<Rightarrow> 't action" where
  "delete_button_action t = emptyAction\<lparr>type := Str ''deleted'', action_id := task_id t\<rparr>"

section \<open>The reducers on a heap\<close>

text \<open>
  Whether a reducer mutates its argument cannot be asked of a function on values.  The
  same two reducers are therefore also modelled on a heap: states, message
  dictionaries, tasks and task arrays are objects at addresses, an object literal or an
  array literal allocates a fresh address, and spreading an object copies its property
  values, so that a property holding an object is shared by reference.  The heap keeps
  the objects by kind, each kind in a table from addresses to contents;
  \<open>next_ref\<close> is the next fresh address, and the objects in existence are those
  below it.
\<close>

type_synonym ref = nat

record state_object =
  st_selectedId :: prim
  st_messages :: ref

record jsheap =
  state_objects :: "ref \<Rightarrow> state_object"
  message_objects :: "ref \<Rightarrow> (string \<rightharpoonup> prim)"
  task_objects :: "ref \<Rightarrow> task"
  task_arrays :: "ref \<Rightarrow> ref list"
  next_ref :: ref

definition new_state_object :: "state_object \<Rightarrow> jsheap \<Rightarrow> ref \<times> jsheap" where
  "new_state_object v h =
     (next_ref h,
      h\<lparr>state_objects := (state_objects h)(next_ref h := v), next_ref := Suc (next_ref h)\<rparr>)"

definition new_message_object :: "(string \<rightharpoonup> prim) \<Rightarrow> jsheap \<Rightarrow> ref \<times> jsheap" where
  "new_message_object v h =
     (next_ref h,
      h\<lparr>message_objects := (message_objects h)(next_ref h := v),
        next_ref := Suc (next_ref h)\<rparr>)"

definition new_task_object :: "task \<Rightarrow> jsheap \<Rightarrow> ref \<times> jsheap" where
  "new_task_object v h =
     (next_ref h,
      h\<lparr>task_objects := (task_objects h)(next_ref h := v), next_ref := Suc (next_ref h)\<rparr>)"

definition new_task_array :: "ref list \<Rightarrow> jsheap \<Rightarrow> ref \<times> jsheap" where
  "new_task_array v h =
     (next_ref h,
      h\<lparr>task_arrays := (task_arrays h)(next_ref h := v), next_ref := Suc (next_ref h)\<rparr>)"

text \<open>
  \<^verbatim>\<open>messengerReducer\<close> on the heap.  \<^verbatim>\<open>{...state, selectedId: action.contactId}\<close>
  is a new state object that shares the messages object of \<^verbatim>\<open>state\<close>;
  \<^verbatim>\<open>{...state, messages: {...state.messages, [state.selectedId]: v}}\<close> is a new messages
  object and a new state object pointing to it.  The result is the exception or the
  address of the new state, and the heap afterwards.
\<close>

definition messengerReducerH :: "jsheap \<Rightarrow> ref \<Rightarrow> 't action \<Rightarrow> (error + ref) \<times> jsheap" where
  "messengerReducerH h state action =
     (if strictEq (type action) (Str ''changed_selection'') then
        (let (r, h1) = new_state_object
                         ((state_objects h state)\<lparr>st_selectedId := contactId action\<rparr>) h
         in (Inr r, h1))
      else if strictEq (type action) (Str ''edited_message'') then
        (let s = state_objects h state;
             (m, h1) = new_message_object
                         ((message_objects h (st_messages s))
                            (toPropertyKey (st_selectedId s) \<mapsto> message action)) h;
             (r, h2) = new_state_object (s\<lparr>st_messages := m\<rparr>) h1
         in (Inr r, h2))
      else if strictEq (type action) (Str ''sent_message'') then
        (let s = state_objects h state;
             (m, h1) = new_message_object
                         ((message_objects h (st_messages s))
                            (toPropertyKey (st_selectedId s) \<mapsto> Str '''')) h;
             (r, h2) = new_state_object (s\<lparr>st_messages := m\<rparr>) h1
         in (Inr r, h2))
      else (Inl (Error (''Unknown action: '' @ toString (type action))), h))"

text \<open>
  The callbacks of \<^verbatim>\<open>tasksReducer\<close> on the heap: the array holds addresses of task
  objects, \<^verbatim>\<open>task.id\<close> reads the object, and the \<^verbatim>\<open>'changed'\<close> callback returns
  the address \<^verbatim>\<open>action.task\<close> itself, not a copy.
\<close>

definition changed_callbackH :: "jsheap \<Rightarrow> ref action \<Rightarrow> ref \<Rightarrow> error + ref" where
  "changed_callbackH h action t =
     (case task action of
        None \<Rightarrow> Inl TypeError
      | Some changed \<Rightarrow>
          Inr (if strictEq (task_id (task_objects h t)) (task_id (task_objects h changed))
               then changed else t))"

definition deleted_callbackH :: "jsheap \<Rightarrow> ref action \<Rightarrow> ref \<Rightarrow> error + bool" where
  "deleted_callbackH h action t =
     (case task action of
        None \<Rightarrow> Inl TypeError
      | Some deleted \<Rightarrow>
          Inr (\<not> strictEq (task_id (task_objects h t)) (task_id (task_objects h deleted))))"

definition tasksReducerH :: "jsheap \<Rightarrow> ref \<Rightarrow> ref action \<Rightarrow> (error + ref) \<times> jsheap" where
  "tasksReducerH h tasks action =
     (if strictEq (type action) (Str ''added'') then
        (let (t, h1) = new_task_object
                         \<lparr>task_id = action_id action, task_text = action_text action,
                          task_done = Bool False\<rparr> h;
             (r, h2) = new_task_array (task_arrays h tasks @ [t]) h1
         in (Inr r, h2))
      else if strictEq (type action) (Str ''changed'') then
        (case array_map (changed_callbackH h action) (task_arrays h tasks) of
           Inl e \<Rightarrow> (Inl e, h)
         | Inr ts \<Rightarrow> (let (r, h1) = new_task_array ts h in (Inr r, h1)))
      else if strictEq (type action) (Str ''deleted'') then
        (case array_filter (deleted_callbackH h action) (task_arrays h tasks) of
           Inl e \<Rightarrow> (Inl e, h)
         | Inr ts \<Rightarrow> (let (r, h1) = new_task_array ts h in (Inr r, h1)))
      else (Inl (Error (''Unknown action: '' @ toString (type action))), h))"

text \<open>
  The value an address stands for, read off the heap: what a deep comparison or a
  snapshot of the object sees.
\<close>

definition read_state :: "jsheap \<Rightarrow> ref \<Rightarrow> messenger_state" where
  "read_state h r =
     \<lparr>selectedId = st_selectedId (state_objects h r),
      messages = message_objects h (st_messages (state_objects h r))\<rparr>"

definition read_tasks :: "jsheap \<Rightarrow> ref \<Rightarrow> task list" where
  "read_tasks h r = map (task_objects h) (task_arrays h r)"

definition read_action :: "jsheap \<Rightarrow> ref action \<Rightarrow> task action" where
  "read_action h a =
     \<lparr>type = type a, contactId = contactId a, message = message a,
      action_id = action_id a, action_text = action_text a,
      task = map_option (task_objects h) (task a)\<rparr>"

definition read_state_result :: "jsheap \<Rightarrow> error + ref \<Rightarrow> error + messenger_state" where
  "read_state_result h res = (case res of Inl e \<Rightarrow> Inl e | Inr r \<Rightarrow> Inr (read_state h r))"

definition read_tasks_result :: "jsheap \<Rightarrow> error + ref \<Rightarrow> error + task list" where
  "read_tasks_result h res = (case res of Inl e \<Rightarrow> Inl e | Inr r \<Rightarrow> Inr (read_tasks h r))"

text \<open>
  The arguments of a call are objects in existence: a state object and its messages
  object, a task array and its elements, the task object of an action.
\<close>

definition allocated_state :: "jsheap \<Rightarrow> ref \<Rightarrow> bool" where
  "allocated_state h r = (r < next_ref h \<and> st_messages (state_objects h r) < next_ref h)"

definition allocated_tasks :: "jsheap \<Rightarrow> ref \<Rightarrow> bool" where
  "allocated_tasks h r = (r < next_ref h \<and> list_all (\<lambda>t. t < next_ref h) (task_arrays h r))"

definition allocated_action :: "jsheap \<Rightarrow> ref action \<Rightarrow> bool" where
  "allocated_action h a = (case task a of None \<Rightarrow> True | Some t \<Rightarrow> t < next_ref h)"

text \<open>No object in existence in \<open>h\<close> has been written to on the way to \<open>h'\<close>.\<close>

definition unchanged :: "jsheap \<Rightarrow> jsheap \<Rightarrow> bool" where
  "unchanged h h' =
     (next_ref h \<le> next_ref h' \<and>
      list_all (\<lambda>r. state_objects h' r = state_objects h r
                  \<and> message_objects h' r = message_objects h r
                  \<and> task_objects h' r = task_objects h r
                  \<and> task_arrays h' r = task_arrays h r) [0..<next_ref h])"

text \<open>
  A heap with the initial messenger state at address 1 (its messages object at 0), a
  task array at 3 holding the task at 2, and at 4 an edited copy of that task, as the
  checkbox of \<^verbatim>\<open>Task\<close> builds it for a \<^verbatim>\<open>'changed'\<close> action.
\<close>

definition example_heap :: jsheap where
  "example_heap =
     \<lparr>state_objects =
        (\<lambda>_. \<lparr>st_selectedId = Undefined, st_messages = 0\<rparr>)
          (1 := \<lparr>st_selectedId = Num 0, st_messages = 0\<rparr>),
      message_objects = (\<lambda>_. Map.empty)(0 := [''0'' \<mapsto> Str '''']),
      task_objects =
        (\<lambda>_. \<lparr>task_id = Undefined, task_text = Undefined, task_done = Undefined\<rparr>)
          (2 := \<lparr>task_id = Num 1, task_text = Str ''Visit the temple'',
                 task_done = Bool False\<rparr>,
           4 := \<lparr>task_id = Num 1, task_text = Str ''Visit the temple'',
                 task_done = Bool True\<rparr>),
      task_arrays = (\<lambda>_. [])(3 := [2]),
      next_ref = 5\<rparr>"

section \<open>Auxiliary facts\<close>

lemma showNat_small [simp]: "showNat 0 = ''0''" "showNat (Suc 0) = ''1''"
  by (simp_all add: showNat.simps)

lemma array_map_total:
  "(\<And>x. f x = Inr (g x)) \<Longrightarrow> array_map f xs = Inr (map g xs)"
  by (induction xs) simp_all

lemma array_filter_total:
  "(\<And>x. p x = Inr (q x)) \<Longrightarrow> array_filter p xs = Inr (filter q xs)"
  by (induction xs) simp_all

lemma tasksReducer_changed:
  assumes "type action = Str ''changed''" and "task action = Some t"
  shows "tasksReducer tasks action
           = Inr (map (\<lambda>x. if task_id x = task_id t then t else x) tasks)"
proof -
  have "\<And>x. changed_callback action x = Inr (if task_id x = task_id t then t else x)"
    using assms(2) by (simp add: changed_callback_def strictEq_def)
  then have "array_map (changed_callback action) tasks
               = Inr (map (\<lambda>x. if task_id x = task_id t then t else x) tasks)"
    by (rule array_map_total)
  then show ?thesis using assms(1) by (simp add: tasksReducer_def strictEq_def)
qed

lemma tasksReducer_deleted:
  assumes "type action = Str ''deleted''" and "task action = Some t"
  shows "tasksReducer tasks action = Inr (filter (\<lambda>x. task_id x \<noteq> task_id t) tasks)"
proof -
  have "\<And>x. deleted_callback action x = Inr (task_id x \<noteq> task_id t)"
    using assms(2) by (simp add: deleted_callback_def strictEq_def)
  then have "array_filter (deleted_callback action) tasks
               = Inr (filter (\<lambda>x. task_id x \<noteq> task_id t) tasks)"
    by (rule array_filter_total)
  then show ?thesis using assms(1) by (simp add: tasksReducer_def strictEq_def)
qed

text \<open>Without \<^verbatim>\<open>action.task\<close> the callback throws, but only if it runs.\<close>

lemma tasksReducer_deleted_no_task:
  assumes "type action = Str ''deleted''" and "task action = None"
  shows "tasksReducer tasks action = (if tasks = [] then Inr [] else Inl TypeError)"
  using assms
  by (cases tasks)
     (simp_all add: tasksReducer_def strictEq_def deleted_callback_def)

lemma dispatch_all_replay:
  "observed (dispatch_all (dispatch reducer) as st) = replay reducer (getState st) as"
proof (induction as arbitrary: st)
  case Nil
  show ?case by (simp add: observed_def)
next
  case (Cons a as)
  show ?case
  proof (cases "reducer (getState st) a")
    case (Inl e)
    then show ?thesis by (simp add: dispatch_def setStateWith_def observed_def)
  next
    case (Inr s')
    then have "dispatch reducer a st = (None, setState s' st)"
      by (simp add: dispatch_def setStateWith_def)
    moreover have "getState (setState s' st) = s'"
      by (simp add: getState_def setState_def)
    ultimately show ?thesis using Cons.IH [of "setState s' st"] Inr by simp
  qed
qed

lemma replay_total: "replay (\<lambda>s a. Inr (f s a)) s as = Inr (foldl f s as)"
  by (induction as arbitrary: s) simp_all

subsection \<open>The heap model: allocation only, and agreement with the reducers on values\<close>

lemma unchanged_iff:
  "unchanged h h' \<longleftrightarrow>
     next_ref h \<le> next_ref h' \<and>
     (\<forall>r<next_ref h. state_objects h' r = state_objects h r
        \<and> message_objects h' r = message_objects h r
        \<and> task_objects h' r = task_objects h r
        \<and> task_arrays h' r = task_arrays h r)"
  by (auto simp: unchanged_def list_all_iff)

lemma messengerReducerH_unchanged: "unchanged h (snd (messengerReducerH h state action))"
  by (simp add: messengerReducerH_def unchanged_iff new_state_object_def
      new_message_object_def Let_def)

lemma tasksReducerH_unchanged: "unchanged h (snd (tasksReducerH h tasks action))"
  by (simp add: tasksReducerH_def unchanged_iff new_task_object_def new_task_array_def
      Let_def split: sum.split)

lemma read_state_unchanged:
  "unchanged h h' \<Longrightarrow> allocated_state h s \<Longrightarrow> read_state h' s = read_state h s"
  by (simp add: unchanged_iff allocated_state_def read_state_def)

lemma allocated_state_unchanged:
  "unchanged h h' \<Longrightarrow> allocated_state h s \<Longrightarrow> allocated_state h' s"
  by (simp add: unchanged_iff allocated_state_def)

lemma messengerReducerH_allocated:
  "fst (messengerReducerH h s a) = Inr r \<Longrightarrow> allocated_state h s \<Longrightarrow>
     allocated_state (snd (messengerReducerH h s a)) r"
  by (auto simp: messengerReducerH_def allocated_state_def new_state_object_def
      new_message_object_def Let_def split: if_splits)

lemma messengerReducerH_refines:
  "read_state_result (snd (messengerReducerH h s a)) (fst (messengerReducerH h s a))
     = messengerReducer (read_state h s) a"
  by (simp add: messengerReducerH_def messengerReducer_def read_state_result_def
      read_state_def new_state_object_def new_message_object_def Let_def)

lemma read_tasks_unchanged:
  "unchanged h h' \<Longrightarrow> allocated_tasks h ts \<Longrightarrow> read_tasks h' ts = read_tasks h ts"
  by (simp add: unchanged_iff allocated_tasks_def read_tasks_def list_all_iff)

lemma allocated_tasks_unchanged:
  "unchanged h h' \<Longrightarrow> allocated_tasks h ts \<Longrightarrow> allocated_tasks h' ts"
  by (auto simp: unchanged_iff allocated_tasks_def list_all_iff)

lemma read_action_unchanged:
  "unchanged h h' \<Longrightarrow> allocated_action h a \<Longrightarrow> read_action h' a = read_action h a"
  by (auto simp: unchanged_iff allocated_action_def read_action_def split: option.splits)

lemma read_action_fields [simp]:
  "type (read_action h a) = type a"
  "action_id (read_action h a) = action_id a"
  "action_text (read_action h a) = action_text a"
  by (simp_all add: read_action_def)

lemma array_map_changed:
  "map_sum id (map (task_objects h)) (array_map (changed_callbackH h a) rs)
     = array_map (changed_callback (read_action h a)) (map (task_objects h) rs)"
  by (induction rs)
     (auto simp: changed_callbackH_def changed_callback_def read_action_def
        split: option.splits sum.splits)

lemma array_filter_deleted:
  "map_sum id (map (task_objects h)) (array_filter (deleted_callbackH h a) rs)
     = array_filter (deleted_callback (read_action h a)) (map (task_objects h) rs)"
  by (induction rs)
     (auto simp: deleted_callbackH_def deleted_callback_def read_action_def
        split: option.splits sum.splits)

lemma array_map_changed_allocated:
  "array_map (changed_callbackH h a) rs = Inr ts \<Longrightarrow> allocated_action h a \<Longrightarrow>
     list_all (\<lambda>t. t < next_ref h) rs \<Longrightarrow> list_all (\<lambda>t. t < next_ref h) ts"
  by (induction rs arbitrary: ts)
     (auto simp: changed_callbackH_def allocated_action_def split: option.splits sum.splits)

lemma array_filter_deleted_allocated:
  "array_filter (deleted_callbackH h a) rs = Inr ts \<Longrightarrow>
     list_all (\<lambda>t. t < next_ref h) rs \<Longrightarrow> list_all (\<lambda>t. t < next_ref h) ts"
  by (induction rs arbitrary: ts)
     (auto simp: deleted_callbackH_def split: option.splits sum.splits if_splits)

lemma action_type_cases:
  obtains (added) "type a = Str ''added''"
  | (changed) "type a \<noteq> Str ''added''" "type a = Str ''changed''"
  | (deleted) "type a \<noteq> Str ''added''" "type a \<noteq> Str ''changed''"
      "type a = Str ''deleted''"
  | (other) "type a \<noteq> Str ''added''" "type a \<noteq> Str ''changed''"
      "type a \<noteq> Str ''deleted''"
  by blast

lemma tasksReducerH_allocated:
  assumes "fst (tasksReducerH h ts a) = Inr r" and "allocated_tasks h ts"
    and "allocated_action h a"
  shows "allocated_tasks (snd (tasksReducerH h ts a)) r"
proof -
  have old: "list_all (\<lambda>t. t < next_ref h) (task_arrays h ts)"
    using assms(2) by (simp add: allocated_tasks_def)
  show ?thesis
  proof (cases a rule: action_type_cases)
    case added
    then show ?thesis using assms(1) old
      by (auto simp: tasksReducerH_def strictEq_def allocated_tasks_def new_task_object_def
          new_task_array_def Let_def list_all_iff)
  next
    case changed
    show ?thesis
    proof (cases "array_map (changed_callbackH h a) (task_arrays h ts)")
      case (Inl e)
      then show ?thesis using assms(1) changed
        by (simp add: tasksReducerH_def strictEq_def)
    next
      case (Inr new)
      then have "list_all (\<lambda>t. t < next_ref h) new"
        using array_map_changed_allocated assms(3) old by blast
      then show ?thesis using assms(1) changed Inr
        by (auto simp: tasksReducerH_def strictEq_def allocated_tasks_def new_task_array_def
            list_all_iff)
    qed
  next
    case deleted
    show ?thesis
    proof (cases "array_filter (deleted_callbackH h a) (task_arrays h ts)")
      case (Inl e)
      then show ?thesis using assms(1) deleted
        by (simp add: tasksReducerH_def strictEq_def)
    next
      case (Inr new)
      then have "list_all (\<lambda>t. t < next_ref h) new"
        using array_filter_deleted_allocated old by blast
      then show ?thesis using assms(1) deleted Inr
        by (auto simp: tasksReducerH_def strictEq_def allocated_tasks_def new_task_array_def
            list_all_iff)
    qed
  next
    case other
    then show ?thesis using assms(1) by (simp add: tasksReducerH_def strictEq_def)
  qed
qed

lemma tasksReducerH_refines:
  assumes "allocated_tasks h ts"
  shows "read_tasks_result (snd (tasksReducerH h ts a)) (fst (tasksReducerH h ts a))
           = tasksReducer (read_tasks h ts) (read_action h a)"
proof -
  have old: "\<forall>t\<in>set (task_arrays h ts). t < next_ref h"
    using assms by (simp add: allocated_tasks_def list_all_iff)
  show ?thesis
  proof (cases a rule: action_type_cases)
    case added
    then show ?thesis using old
      by (auto simp: tasksReducerH_def tasksReducer_def strictEq_def read_tasks_result_def
          read_tasks_def new_task_object_def new_task_array_def Let_def)
  next
    case changed
    have rel: "map_sum id (map (task_objects h))
                 (array_map (changed_callbackH h a) (task_arrays h ts))
               = array_map (changed_callback (read_action h a)) (read_tasks h ts)"
      by (simp add: array_map_changed read_tasks_def)
    show ?thesis
    proof (cases "array_map (changed_callbackH h a) (task_arrays h ts)")
      case (Inl e)
      then show ?thesis using changed rel
        by (simp add: tasksReducerH_def tasksReducer_def strictEq_def read_tasks_result_def)
    next
      case (Inr new)
      then show ?thesis using changed rel
        by (simp add: tasksReducerH_def tasksReducer_def strictEq_def read_tasks_result_def
            read_tasks_def new_task_array_def)
    qed
  next
    case deleted
    have rel: "map_sum id (map (task_objects h))
                 (array_filter (deleted_callbackH h a) (task_arrays h ts))
               = array_filter (deleted_callback (read_action h a)) (read_tasks h ts)"
      by (simp add: array_filter_deleted read_tasks_def)
    show ?thesis
    proof (cases "array_filter (deleted_callbackH h a) (task_arrays h ts)")
      case (Inl e)
      then show ?thesis using deleted rel
        by (simp add: tasksReducerH_def tasksReducer_def strictEq_def read_tasks_result_def)
    next
      case (Inr new)
      then show ?thesis using deleted rel
        by (simp add: tasksReducerH_def tasksReducer_def strictEq_def read_tasks_result_def
            read_tasks_def new_task_array_def)
    qed
  next
    case other
    then show ?thesis
      by (simp add: tasksReducerH_def tasksReducer_def strictEq_def read_tasks_result_def)
  qed
qed

text \<open>
  Two calls in a row on the same arguments: nothing in existence is written to, the
  arguments read as before, and the two results, both read in the final heap, are equal
  and are what the reducer on values returns.
\<close>

lemma messenger_two_runs:
  assumes "allocated_state h state"
  shows "\<exists>r1 h1 r2 h2.
     messengerReducerH h state action = (r1, h1)
     \<and> messengerReducerH h1 state action = (r2, h2)
     \<and> read_state_result h2 r1 = read_state_result h2 r2
     \<and> read_state_result h2 r2 = messengerReducer (read_state h state) action
     \<and> unchanged h h1 \<and> unchanged h1 h2
     \<and> read_state h1 state = read_state h state
     \<and> read_state h2 state = read_state h state"
proof -
  obtain r1 h1 where run1: "messengerReducerH h state action = (r1, h1)"
    by (cases "messengerReducerH h state action")
  obtain r2 h2 where run2: "messengerReducerH h1 state action = (r2, h2)"
    by (cases "messengerReducerH h1 state action")
  have u1: "unchanged h h1"
    using messengerReducerH_unchanged [of h state action] run1 by simp
  have u2: "unchanged h1 h2"
    using messengerReducerH_unchanged [of h1 state action] run2 by simp
  have s1: "read_state h1 state = read_state h state"
    using u1 assms by (rule read_state_unchanged)
  have a1: "allocated_state h1 state"
    using u1 assms by (rule allocated_state_unchanged)
  have s2: "read_state h2 state = read_state h state"
    using read_state_unchanged [OF u2 a1] s1 by simp
  have res1: "read_state_result h1 r1 = messengerReducer (read_state h state) action"
    using messengerReducerH_refines [of h state action] run1 by simp
  have res2: "read_state_result h2 r2 = messengerReducer (read_state h state) action"
    using messengerReducerH_refines [of h1 state action] run2 s1 by simp
  have "read_state_result h2 r1 = read_state_result h1 r1"
  proof (cases r1)
    case (Inl e)
    then show ?thesis by (simp add: read_state_result_def)
  next
    case (Inr r)
    then have "allocated_state h1 r"
      using messengerReducerH_allocated [of h state action r] run1 assms by simp
    then show ?thesis
      using Inr read_state_unchanged [OF u2] by (simp add: read_state_result_def)
  qed
  then have "read_state_result h2 r1 = read_state_result h2 r2"
    using res1 res2 by simp
  then show ?thesis using run1 run2 res2 u1 u2 s1 s2 by blast
qed

lemma tasks_two_runs:
  assumes "allocated_tasks h tasks" and "allocated_action h action"
  shows "\<exists>r1 h1 r2 h2.
     tasksReducerH h tasks action = (r1, h1)
     \<and> tasksReducerH h1 tasks action = (r2, h2)
     \<and> read_tasks_result h2 r1 = read_tasks_result h2 r2
     \<and> read_tasks_result h2 r2 = tasksReducer (read_tasks h tasks) (read_action h action)
     \<and> unchanged h h1 \<and> unchanged h1 h2
     \<and> read_tasks h1 tasks = read_tasks h tasks
     \<and> read_tasks h2 tasks = read_tasks h tasks"
proof -
  obtain r1 h1 where run1: "tasksReducerH h tasks action = (r1, h1)"
    by (cases "tasksReducerH h tasks action")
  obtain r2 h2 where run2: "tasksReducerH h1 tasks action = (r2, h2)"
    by (cases "tasksReducerH h1 tasks action")
  have u1: "unchanged h h1"
    using tasksReducerH_unchanged [of h tasks action] run1 by simp
  have u2: "unchanged h1 h2"
    using tasksReducerH_unchanged [of h1 tasks action] run2 by simp
  have s1: "read_tasks h1 tasks = read_tasks h tasks"
    using u1 assms(1) by (rule read_tasks_unchanged)
  have a1: "allocated_tasks h1 tasks"
    using u1 assms(1) by (rule allocated_tasks_unchanged)
  have act1: "read_action h1 action = read_action h action"
    using u1 assms(2) by (rule read_action_unchanged)
  have s2: "read_tasks h2 tasks = read_tasks h tasks"
    using read_tasks_unchanged [OF u2 a1] s1 by simp
  have res1: "read_tasks_result h1 r1 = tasksReducer (read_tasks h tasks) (read_action h action)"
    using tasksReducerH_refines [OF assms(1), of action] run1 by simp
  have res2: "read_tasks_result h2 r2 = tasksReducer (read_tasks h tasks) (read_action h action)"
    using tasksReducerH_refines [OF a1, of action] run2 s1 act1 by simp
  have "read_tasks_result h2 r1 = read_tasks_result h1 r1"
  proof (cases r1)
    case (Inl e)
    then show ?thesis by (simp add: read_tasks_result_def)
  next
    case (Inr r)
    then have "allocated_tasks h1 r"
      using tasksReducerH_allocated [of h tasks action r] run1 assms by simp
    then show ?thesis
      using Inr read_tasks_unchanged [OF u2] by (simp add: read_tasks_result_def)
  qed
  then have "read_tasks_result h2 r1 = read_tasks_result h2 r2"
    using res1 res2 by simp
  then show ?thesis using run1 run2 res2 u1 u2 s1 s2 by blast
qed

section \<open>The claims\<close>

text \<open>
  Claim C1.  For every state and every action whose \<^verbatim>\<open>type\<close> is none of the cases of
  the \<^verbatim>\<open>switch\<close> (\<^verbatim>\<open>'changed_selection'\<close>, \<^verbatim>\<open>'edited_message'\<close>,
  \<^verbatim>\<open>'sent_message'\<close> for \<^verbatim>\<open>messengerReducer\<close>; \<^verbatim>\<open>'added'\<close>, \<^verbatim>\<open>'changed'\<close>,
  \<^verbatim>\<open>'deleted'\<close> for \<^verbatim>\<open>tasksReducer\<close>) the reducer throws the unknown-action
  error, \<^verbatim>\<open>Error('Unknown action: ' + action.type)\<close>, instead of returning the state;
  the error leaves \<^verbatim>\<open>dispatch\<close>, and the store after the failed dispatch is the
  store before it.
\<close>

theorem unknown_action_raises:
  "(type action \<notin> {Str ''changed_selection'', Str ''edited_message'', Str ''sent_message''} \<longrightarrow>
      messengerReducer (getState st) action
        = Inl (Error (''Unknown action: '' @ toString (type action)))
      \<and> dispatch messengerReducer action st
        = (Some (Error (''Unknown action: '' @ toString (type action))), st)
      \<and> getState (snd (dispatch messengerReducer action st)) = getState st)
   \<and> (type action' \<notin> {Str ''added'', Str ''changed'', Str ''deleted''} \<longrightarrow>
      tasksReducer (getState st') action'
        = Inl (Error (''Unknown action: '' @ toString (type action')))
      \<and> dispatch tasksReducer action' st'
        = (Some (Error (''Unknown action: '' @ toString (type action'))), st')
      \<and> getState (snd (dispatch tasksReducer action' st')) = getState st')"
  by (simp add: messengerReducer_def tasksReducer_def strictEq_def dispatch_def
      setStateWith_def)

text \<open>Scenario 4 of the spec: \<^verbatim>\<open>{type: "bogus"}\<close>.\<close>

theorem unknown_action_raises_witness:
  "Str ''bogus'' \<notin> {Str ''changed_selection'', Str ''edited_message'', Str ''sent_message''}
   \<and> Str ''bogus'' \<notin> {Str ''added'', Str ''changed'', Str ''deleted''}
   \<and> messengerReducer initialState ((emptyAction :: task action)\<lparr>type := Str ''bogus''\<rparr>)
        = Inl (Error ''Unknown action: bogus'')
   \<and> dispatch messengerReducer ((emptyAction :: task action)\<lparr>type := Str ''bogus''\<rparr>)
          (useState initialState)
        = (Some (Error ''Unknown action: bogus''), useState initialState)
   \<and> tasksReducer [] (emptyAction\<lparr>type := Str ''bogus''\<rparr>)
        = Inl (Error ''Unknown action: bogus'')
   \<and> dispatch tasksReducer (emptyAction\<lparr>type := Str ''bogus''\<rparr>) (useState [])
        = (Some (Error ''Unknown action: bogus''), useState [])"
  using unknown_action_raises
    [of "(emptyAction :: task action)\<lparr>type := Str ''bogus''\<rparr>" "useState initialState"
        "emptyAction\<lparr>type := Str ''bogus''\<rparr>" "useState []"]
  by (simp add: getState_def useState_def)

text \<open>
  Claim C2.  For every list of actions, dispatching them in order through the container
  of \<^verbatim>\<open>useMyReducer\<close> is observed as the independent replay of the list is: the same
  final state, or the same exception where a reducer call throws.  For a reducer that
  never throws, the state held after the dispatches is the left fold of the reducer over
  the list from the initial state.
\<close>

theorem dispatched_state_is_replay:
  "(case useMyReducer reducer initial of
      (st, dispatch') \<Rightarrow> observed (dispatch_all dispatch' as st) = replay reducer initial as)
   \<and> (case useMyReducer (\<lambda>s a. Inr (f s a)) initial of
      (st, dispatch') \<Rightarrow> observed (dispatch_all dispatch' as st) = Inr (foldl f initial as))"
  by (simp add: useMyReducer_def dispatch_all_replay replay_total getState_def useState_def)

text \<open>Scenarios 1 and 2 of the spec, dispatched one after the other.\<close>

theorem dispatched_state_is_replay_witness:
  "(case useMyReducer messengerReducer initialState of
      (st, dispatch') \<Rightarrow>
        observed (dispatch_all dispatch'
          [(emptyAction :: task action)\<lparr>type := Str ''edited_message'', message := Str ''hi''\<rparr>,
           emptyAction\<lparr>type := Str ''changed_selection'', contactId := Num 1\<rparr>] st)
        = Inr \<lparr>selectedId = Num 1, messages = [''0'' \<mapsto> Str ''hi'']\<rparr>)"
proof -
  have "replay messengerReducer initialState
          [(emptyAction :: task action)\<lparr>type := Str ''edited_message'', message := Str ''hi''\<rparr>,
           emptyAction\<lparr>type := Str ''changed_selection'', contactId := Num 1\<rparr>]
        = Inr \<lparr>selectedId = Num 1, messages = [''0'' \<mapsto> Str ''hi'']\<rparr>"
    by (simp add: messengerReducer_def strictEq_def toPropertyKey_def emptyAction_def
        initialState_def)
  then show ?thesis
    using dispatched_state_is_replay
      [where reducer = messengerReducer and initial = initialState and as =
        "[(emptyAction :: task action)\<lparr>type := Str ''edited_message'', message := Str ''hi''\<rparr>,
          emptyAction\<lparr>type := Str ''changed_selection'', contactId := Num 1\<rparr>]",
       THEN conjunct1]
    by (simp only:)
qed

text \<open>
  Claim C3.  For every state, \<^verbatim>\<open>messengerReducer\<close> on an action of type
  \<^verbatim>\<open>'sent_message'\<close> returns a state with the same \<^verbatim>\<open>selectedId\<close> (and the same
  further properties) whose messages bind the key of \<^verbatim>\<open>state.selectedId\<close> to the
  empty string and every other key to its previous value.  On
  \<^verbatim>\<open>{selectedId: 1, messages: {0: 'hi'}}\<close> the result is
  \<^verbatim>\<open>{selectedId: 1, messages: {0: 'hi', 1: ''}}\<close>, and so it is when key 1 held a text
  before.
\<close>

theorem sent_message_resets_selected:
  "(type action = Str ''sent_message'' \<longrightarrow>
      (\<exists>s'. messengerReducer state action = Inr s'
         \<and> selectedId s' = selectedId state
         \<and> messenger_state.more s' = messenger_state.more state
         \<and> messages s' (toPropertyKey (selectedId state)) = Some (Str '''')
         \<and> (\<forall>k. k \<noteq> toPropertyKey (selectedId state) \<longrightarrow> messages s' k = messages state k)))
   \<and> messengerReducer \<lparr>selectedId = Num 1, messages = [''0'' \<mapsto> Str ''hi'']\<rparr>
        ((emptyAction :: task action)\<lparr>type := Str ''sent_message''\<rparr>)
      = Inr \<lparr>selectedId = Num 1, messages = [''0'' \<mapsto> Str ''hi'', ''1'' \<mapsto> Str '''']\<rparr>
   \<and> messengerReducer
        \<lparr>selectedId = Num 1, messages = [''0'' \<mapsto> Str ''hi'', ''1'' \<mapsto> Str ''draft'']\<rparr>
        ((emptyAction :: task action)\<lparr>type := Str ''sent_message''\<rparr>)
      = Inr \<lparr>selectedId = Num 1, messages = [''0'' \<mapsto> Str ''hi'', ''1'' \<mapsto> Str '''']\<rparr>"
  by (simp add: messengerReducer_def strictEq_def toPropertyKey_def emptyAction_def)

theorem sent_message_resets_selected_witness:
  "type ((emptyAction :: task action)\<lparr>type := Str ''sent_message''\<rparr>) = Str ''sent_message''
   \<and> (\<exists>s'. messengerReducer \<lparr>selectedId = Num 1, messages = [''0'' \<mapsto> Str ''hi'']\<rparr>
              ((emptyAction :: task action)\<lparr>type := Str ''sent_message''\<rparr>) = Inr s'
         \<and> selectedId s' = Num 1
         \<and> messages s' ''1'' = Some (Str '''')
         \<and> ''0'' \<noteq> ''1'' \<and> messages s' ''0'' = Some (Str ''hi''))"
  using sent_message_resets_selected
    [of "(emptyAction :: task action)\<lparr>type := Str ''sent_message''\<rparr>"
        "\<lparr>selectedId = Num 1, messages = [''0'' \<mapsto> Str ''hi'']\<rparr>"]
  by (fastforce simp: toPropertyKey_def emptyAction_def)

text \<open>
  Claim C4.  From \<^verbatim>\<open>initialState = {selectedId: 0, messages: {0: ''}}\<close>, the action
  \<^verbatim>\<open>{type: 'edited_message', message: 'hi'}\<close> yields exactly
  \<^verbatim>\<open>{selectedId: 0, messages: {0: 'hi'}}\<close>; from that state, the action
  \<^verbatim>\<open>{type: 'changed_selection', contactId: 1}\<close> yields exactly
  \<^verbatim>\<open>{selectedId: 1, messages: {0: 'hi'}}\<close>: the entry of key 0 is kept and key 1 has no
  entry.
\<close>

theorem scenario_1_2:
  "messengerReducer initialState
      ((emptyAction :: task action)\<lparr>type := Str ''edited_message'', message := Str ''hi''\<rparr>)
     = Inr \<lparr>selectedId = Num 0, messages = [''0'' \<mapsto> Str ''hi'']\<rparr>
   \<and> messengerReducer \<lparr>selectedId = Num 0, messages = [''0'' \<mapsto> Str ''hi'']\<rparr>
      ((emptyAction :: task action)\<lparr>type := Str ''changed_selection'', contactId := Num 1\<rparr>)
     = Inr \<lparr>selectedId = Num 1, messages = [''0'' \<mapsto> Str ''hi'']\<rparr>
   \<and> [''0'' \<mapsto> Str ''hi''] (toPropertyKey (Num 0)) = Some (Str ''hi'')
   \<and> [''0'' \<mapsto> Str ''hi''] (toPropertyKey (Num 1)) = None"
  by (simp add: messengerReducer_def initialState_def emptyAction_def strictEq_def
      toPropertyKey_def)

text \<open>
  Claim C5.  For every state and every message value, \<^verbatim>\<open>messengerReducer\<close> on an
  action of type \<^verbatim>\<open>'edited_message'\<close> returns a state with the same
  \<^verbatim>\<open>selectedId\<close> whose messages bind the key of \<^verbatim>\<open>state.selectedId\<close> to the message
  and every other key to its previous value.
\<close>

theorem edited_message_sets_selected:
  assumes "type action = Str ''edited_message''"
  shows "\<exists>s'. messengerReducer state action = Inr s'
           \<and> selectedId s' = selectedId state
           \<and> messenger_state.more s' = messenger_state.more state
           \<and> messages s' (toPropertyKey (selectedId state)) = Some (message action)
           \<and> (\<forall>k. k \<noteq> toPropertyKey (selectedId state) \<longrightarrow> messages s' k = messages state k)"
  using assms by (simp add: messengerReducer_def strictEq_def)

theorem edited_message_sets_selected_witness:
  "type ((emptyAction :: task action)\<lparr>type := Str ''edited_message'', message := Str ''yo''\<rparr>)
     = Str ''edited_message''
   \<and> (\<exists>s'. messengerReducer \<lparr>selectedId = Num 1, messages = [''0'' \<mapsto> Str ''hi'']\<rparr>
              ((emptyAction :: task action)\<lparr>type := Str ''edited_message'', message := Str ''yo''\<rparr>)
            = Inr s'
         \<and> selectedId s' = Num 1
         \<and> messages s' ''1'' = Some (Str ''yo'')
         \<and> ''0'' \<noteq> ''1'' \<and> messages s' ''0'' = Some (Str ''hi''))"
  using edited_message_sets_selected
    [of "(emptyAction :: task action)\<lparr>type := Str ''edited_message'', message := Str ''yo''\<rparr>"
        "\<lparr>selectedId = Num 1, messages = [''0'' \<mapsto> Str ''hi'']\<rparr>"]
  by (fastforce simp: toPropertyKey_def emptyAction_def)

text \<open>
  Claim C6.  For every state and every contact id, \<^verbatim>\<open>messengerReducer\<close> on an action of
  type \<^verbatim>\<open>'changed_selection'\<close> returns a state whose \<^verbatim>\<open>selectedId\<close> is
  \<^verbatim>\<open>action.contactId\<close> and whose messages are the messages of the state, untouched.
\<close>

theorem changed_selection_frame:
  assumes "type action = Str ''changed_selection''"
  shows "\<exists>s'. messengerReducer state action = Inr s'
           \<and> selectedId s' = contactId action
           \<and> messages s' = messages state
           \<and> messenger_state.more s' = messenger_state.more state"
  using assms by (simp add: messengerReducer_def strictEq_def)

theorem changed_selection_frame_witness:
  "type ((emptyAction :: task action)\<lparr>type := Str ''changed_selection'', contactId := Num 2\<rparr>)
     = Str ''changed_selection''
   \<and> (\<exists>s'. messengerReducer initialState
              ((emptyAction :: task action)\<lparr>type := Str ''changed_selection'', contactId := Num 2\<rparr>)
            = Inr s'
         \<and> selectedId s' = Num 2 \<and> messages s' = [''0'' \<mapsto> Str ''''])"
  using changed_selection_frame
    [of "(emptyAction :: task action)\<lparr>type := Str ''changed_selection'', contactId := Num 2\<rparr>"
        initialState]
  by (fastforce simp: emptyAction_def initialState_def)

text \<open>
  Claim C7.  Both reducers are pure.  Called twice in a row on the same state and action,
  objects in existence, a reducer returns results that are structurally equal (the same
  exception, or new objects that read the same in the final heap, namely as the result
  of the reducer on values); and no call writes to an object that existed before it, so
  that the state passed in reads after each call as its snapshot before the call.
\<close>

theorem reducers_are_pure:
  "(allocated_state h state \<longrightarrow>
      (\<exists>r1 h1 r2 h2.
         messengerReducerH h state action = (r1, h1)
         \<and> messengerReducerH h1 state action = (r2, h2)
         \<and> read_state_result h2 r1 = read_state_result h2 r2
         \<and> read_state_result h2 r2 = messengerReducer (read_state h state) action
         \<and> unchanged h h1 \<and> unchanged h1 h2
         \<and> read_state h1 state = read_state h state
         \<and> read_state h2 state = read_state h state))
   \<and> (allocated_tasks g tasks \<and> allocated_action g action' \<longrightarrow>
      (\<exists>r1 g1 r2 g2.
         tasksReducerH g tasks action' = (r1, g1)
         \<and> tasksReducerH g1 tasks action' = (r2, g2)
         \<and> read_tasks_result g2 r1 = read_tasks_result g2 r2
         \<and> read_tasks_result g2 r2 = tasksReducer (read_tasks g tasks) (read_action g action')
         \<and> unchanged g g1 \<and> unchanged g1 g2
         \<and> read_tasks g1 tasks = read_tasks g tasks
         \<and> read_tasks g2 tasks = read_tasks g tasks))"
  using messenger_two_runs tasks_two_runs by blast

text \<open>
  On the example heap: the two calls return different new objects (addresses 6 and 8 for
  the messenger state, 5 and 6 for the task array) that read the same, and the arguments
  read as before.
\<close>

theorem reducers_are_pure_witness:
  "allocated_state example_heap 1
   \<and> allocated_tasks example_heap 3
   \<and> allocated_action example_heap (emptyAction\<lparr>type := Str ''changed'', task := Some 4\<rparr>)
   \<and> (\<exists>r1 h1 r2 h2.
         messengerReducerH example_heap 1
             ((emptyAction :: ref action)\<lparr>type := Str ''edited_message'', message := Str ''hi''\<rparr>)
           = (r1, h1)
         \<and> messengerReducerH h1 1
             ((emptyAction :: ref action)\<lparr>type := Str ''edited_message'', message := Str ''hi''\<rparr>)
           = (r2, h2)
         \<and> r1 = Inr 6 \<and> r2 = Inr 8
         \<and> read_state_result h2 r1
             = Inr \<lparr>selectedId = Num 0, messages = [''0'' \<mapsto> Str ''hi'']\<rparr>
         \<and> read_state_result h2 r2
             = Inr \<lparr>selectedId = Num 0, messages = [''0'' \<mapsto> Str ''hi'']\<rparr>
         \<and> unchanged example_heap h1 \<and> unchanged h1 h2
         \<and> read_state h2 1 = \<lparr>selectedId = Num 0, messages = [''0'' \<mapsto> Str '''']\<rparr>)
   \<and> (\<exists>r1 g1 r2 g2.
         tasksReducerH example_heap 3 (emptyAction\<lparr>type := Str ''changed'', task := Some 4\<rparr>)
           = (r1, g1)
         \<and> tasksReducerH g1 3 (emptyAction\<lparr>type := Str ''changed'', task := Some 4\<rparr>)
           = (r2, g2)
         \<and> r1 = Inr 5 \<and> r2 = Inr 6
         \<and> read_tasks_result g2 r1
             = Inr [\<lparr>task_id = Num 1, task_text = Str ''Visit the temple'',
                      task_done = Bool True\<rparr>]
         \<and> read_tasks_result g2 r2
             = Inr [\<lparr>task_id = Num 1, task_text = Str ''Visit the temple'',
                      task_done = Bool True\<rparr>]
         \<and> unchanged example_heap g1 \<and> unchanged g1 g2
         \<and> read_tasks g2 3
             = [\<lparr>task_id = Num 1, task_text = Str ''Visit the temple'',
                  task_done = Bool False\<rparr>])"
proof -
  let ?am = "(emptyAction :: ref action)\<lparr>type := Str ''edited_message'', message := Str ''hi''\<rparr>"
  let ?at = "(emptyAction :: ref action)\<lparr>type := Str ''changed'', task := Some 4\<rparr>"
  note heap_defs = example_heap_def emptyAction_def strictEq_def Let_def
    new_message_object_def new_state_object_def new_task_array_def
  have a: "allocated_state example_heap 1"
    by (simp add: allocated_state_def example_heap_def)
  have b: "allocated_tasks example_heap 3"
    by (simp add: allocated_tasks_def example_heap_def)
  have c: "allocated_action example_heap ?at"
    by (simp add: allocated_action_def example_heap_def emptyAction_def)
  have m1: "fst (messengerReducerH example_heap 1 ?am) = Inr 6"
    by (simp add: messengerReducerH_def heap_defs)
  have m2: "fst (messengerReducerH (snd (messengerReducerH example_heap 1 ?am)) 1 ?am) = Inr 8"
    by (simp add: messengerReducerH_def heap_defs)
  have t1: "fst (tasksReducerH example_heap 3 ?at) = Inr 5"
    by (simp add: tasksReducerH_def changed_callbackH_def heap_defs)
  have t2: "fst (tasksReducerH (snd (tasksReducerH example_heap 3 ?at)) 3 ?at) = Inr 6"
    by (simp add: tasksReducerH_def changed_callbackH_def heap_defs)
  have sm: "read_state example_heap 1 = \<lparr>selectedId = Num 0, messages = [''0'' \<mapsto> Str '''']\<rparr>"
    by (simp add: read_state_def example_heap_def)
  have st: "read_tasks example_heap 3
      = [\<lparr>task_id = Num 1, task_text = Str ''Visit the temple'', task_done = Bool False\<rparr>]"
    by (simp add: read_tasks_def example_heap_def)
  have vm: "messengerReducer \<lparr>selectedId = Num 0, messages = [''0'' \<mapsto> Str '''']\<rparr> ?am
      = Inr \<lparr>selectedId = Num 0, messages = [''0'' \<mapsto> Str ''hi'']\<rparr>"
    by (simp add: messengerReducer_def strictEq_def toPropertyKey_def emptyAction_def)
  have vt: "tasksReducer
        [\<lparr>task_id = Num 1, task_text = Str ''Visit the temple'', task_done = Bool False\<rparr>]
        (read_action example_heap ?at)
      = Inr [\<lparr>task_id = Num 1, task_text = Str ''Visit the temple'', task_done = Bool True\<rparr>]"
    by (simp add: tasksReducer_def changed_callback_def strictEq_def read_action_def
        emptyAction_def example_heap_def)
  from a b c reducers_are_pure [of example_heap 1 ?am example_heap 3 ?at]
  obtain r1 h1 r2 h2 q1 g1 q2 g2 where
    M: "messengerReducerH example_heap 1 ?am = (r1, h1)"
       "messengerReducerH h1 1 ?am = (r2, h2)"
       "read_state_result h2 r1 = read_state_result h2 r2"
       "read_state_result h2 r2 = messengerReducer (read_state example_heap 1) ?am"
       "unchanged example_heap h1" "unchanged h1 h2"
       "read_state h2 1 = read_state example_heap 1"
    and T: "tasksReducerH example_heap 3 ?at = (q1, g1)"
       "tasksReducerH g1 3 ?at = (q2, g2)"
       "read_tasks_result g2 q1 = read_tasks_result g2 q2"
       "read_tasks_result g2 q2
          = tasksReducer (read_tasks example_heap 3) (read_action example_heap ?at)"
       "unchanged example_heap g1" "unchanged g1 g2"
       "read_tasks g2 3 = read_tasks example_heap 3"
    by blast
  have "r1 = Inr 6" using m1 M(1) by simp
  moreover have "r2 = Inr 8" using m2 M(1,2) by simp
  moreover have "q1 = Inr 5" using t1 T(1) by simp
  moreover have "q2 = Inr 6" using t2 T(1,2) by simp
  ultimately show ?thesis
    using a b c M T sm st vm vt by (simp only:) blast
qed

text \<open>
  Claim C8, as stated, fails on the empty task list: the action of the Delete button,
  \<^verbatim>\<open>{type: 'deleted', id: 0}\<close>, has no \<^verbatim>\<open>task\<close>, yet
  \<^verbatim>\<open>[].filter(...)\<close> never runs the callback that reads \<^verbatim>\<open>action.task.id\<close>, and
  the reducer returns an empty list instead of failing.
\<close>

theorem deleted_empty_list_counterexample:
  "task ((emptyAction :: task action)\<lparr>type := Str ''deleted'', action_id := Num 0\<rparr>) = None
   \<and> tasksReducer [] (emptyAction\<lparr>type := Str ''deleted'', action_id := Num 0\<rparr>) = Inr []
   \<and> \<not> (\<exists>e. tasksReducer [] (emptyAction\<lparr>type := Str ''deleted'', action_id := Num 0\<rparr>)
              = Inl e)"
  by (simp add: tasksReducer_def strictEq_def emptyAction_def)

text \<open>
  Claim C8, amended.  The \<^verbatim>\<open>'deleted'\<close> branch of \<^verbatim>\<open>tasksReducer\<close> reads
  \<^verbatim>\<open>action.task.id\<close>.  For every task list and every action of type \<^verbatim>\<open>'deleted'\<close>
  with a \<^verbatim>\<open>task\<close>, the result is the list without the tasks whose id is
  \<^verbatim>\<open>action.task.id\<close>, the others in their order.  For an action of type
  \<^verbatim>\<open>'deleted'\<close> without \<^verbatim>\<open>task\<close> and a task list that is not empty, the reducer
  fails with the \<^verbatim>\<open>TypeError\<close> of reading a property of \<^verbatim>\<open>undefined\<close> and deletes
  nothing; so it does on the action the Delete button of any task of the list
  dispatches.
\<close>

theorem deleted_reads_action_task:
  "(type action = Str ''deleted'' \<and> task action = Some t \<longrightarrow>
      tasksReducer tasks action = Inr (filter (\<lambda>x. task_id x \<noteq> task_id t) tasks))
   \<and> (type action = Str ''deleted'' \<and> task action = None \<and> tasks \<noteq> [] \<longrightarrow>
      tasksReducer tasks action = Inl TypeError)
   \<and> (x \<in> set tasks \<longrightarrow> tasksReducer tasks (delete_button_action x) = Inl TypeError)"
proof -
  have "tasksReducer tasks (delete_button_action x) = Inl TypeError" if "x \<in> set tasks"
  proof -
    have "tasks \<noteq> []" using that by auto
    moreover have "type (delete_button_action x :: task action) = Str ''deleted''"
      and "task (delete_button_action x :: task action) = None"
      by (simp_all add: delete_button_action_def emptyAction_def)
    ultimately show ?thesis by (simp add: tasksReducer_deleted_no_task)
  qed
  then show ?thesis
    by (simp add: tasksReducer_deleted tasksReducer_deleted_no_task)
qed

theorem deleted_reads_action_task_witness:
  "tasksReducer
      [\<lparr>task_id = Num 0, task_text = Str ''Drink matcha'', task_done = Bool True\<rparr>,
       \<lparr>task_id = Num 1, task_text = Str ''Visit the temple'', task_done = Bool False\<rparr>]
      (emptyAction\<lparr>type := Str ''deleted'',
         task := Some \<lparr>task_id = Num 1, task_text = Str ''Visit the temple'',
                       task_done = Bool False\<rparr>\<rparr>)
     = Inr [\<lparr>task_id = Num 0, task_text = Str ''Drink matcha'', task_done = Bool True\<rparr>]
   \<and> tasksReducer
      [\<lparr>task_id = Num 0, task_text = Str ''Drink matcha'', task_done = Bool True\<rparr>,
       \<lparr>task_id = Num 1, task_text = Str ''Visit the temple'', task_done = Bool False\<rparr>]
      (emptyAction\<lparr>type := Str ''deleted'', action_id := Num 1\<rparr>)
     = Inl TypeError
   \<and> tasksReducer
      [\<lparr>task_id = Num 0, task_text = Str ''Drink matcha'', task_done = Bool True\<rparr>,
       \<lparr>task_id = Num 1, task_text = Str ''Visit the temple'', task_done = Bool False\<rparr>]
      (delete_button_action
         \<lparr>task_id = Num 1, task_text = Str ''Visit the temple'', task_done = Bool False\<rparr>)
     = Inl TypeError"
  using
    deleted_reads_action_task
      [of "emptyAction\<lparr>type := Str ''deleted'',
             task := Some \<lparr>task_id = Num 1, task_text = Str ''Visit the temple'',
                           task_done = Bool False\<rparr>\<rparr>"
          "\<lparr>task_id = Num 1, task_text = Str ''Visit the temple'', task_done = Bool False\<rparr>"
          "[\<lparr>task_id = Num 0, task_text = Str ''Drink matcha'', task_done = Bool True\<rparr>,
            \<lparr>task_id = Num 1, task_text = Str ''Visit the temple'', task_done = Bool False\<rparr>]"
          "\<lparr>task_id = Num 1, task_text = Str ''Visit the temple'', task_done = Bool False\<rparr>"]
    deleted_reads_action_task
      [of "emptyAction\<lparr>type := Str ''deleted'', action_id := Num 1\<rparr>"
          "\<lparr>task_id = Num 1, task_text = Str ''Visit the temple'', task_done = Bool False\<rparr>"
          "[\<lparr>task_id = Num 0, task_text = Str ''Drink matcha'', task_done = Bool True\<rparr>,
            \<lparr>task_id = Num 1, task_text = Str ''Visit the temple'', task_done = Bool False\<rparr>]"
          "\<lparr>task_id = Num 1, task_text = Str ''Visit the temple'', task_done = Bool False\<rparr>"]
  by (simp add: emptyAction_def)

text \<open>
  Claim C9.  For every task list and every action of type \<^verbatim>\<open>'added'\<close>,
  \<^verbatim>\<open>tasksReducer\<close> returns the input tasks, unchanged and in their order, followed by
  the one new task \<^verbatim>\<open>{id: action.id, text: action.text, done: false}\<close>; the result is
  one longer than the input.
\<close>

theorem added_appends:
  assumes "type action = Str ''added''"
  shows "\<exists>ts'. tasksReducer tasks action = Inr ts'
           \<and> take (length tasks) ts' = tasks
           \<and> drop (length tasks) ts' =
                [\<lparr>task_id = action_id action, task_text = action_text action,
                  task_done = Bool False\<rparr>]
           \<and> length ts' = length tasks + 1"
  using assms by (simp add: tasksReducer_def strictEq_def)

theorem added_appends_witness:
  "type ((emptyAction :: task action)
           \<lparr>type := Str ''added'', action_id := Num 4, action_text := Str ''Tea''\<rparr>)
     = Str ''added''
   \<and> (\<exists>ts'. tasksReducer
               [\<lparr>task_id = Num 0, task_text = Str ''Drink matcha'', task_done = Bool True\<rparr>]
               (emptyAction\<lparr>type := Str ''added'', action_id := Num 4,
                  action_text := Str ''Tea''\<rparr>)
             = Inr ts'
         \<and> take 1 ts'
             = [\<lparr>task_id = Num 0, task_text = Str ''Drink matcha'', task_done = Bool True\<rparr>]
         \<and> drop 1 ts' = [\<lparr>task_id = Num 4, task_text = Str ''Tea'', task_done = Bool False\<rparr>]
         \<and> length ts' = 2)"
  using added_appends
    [of "(emptyAction :: task action)
           \<lparr>type := Str ''added'', action_id := Num 4, action_text := Str ''Tea''\<rparr>"
        "[\<lparr>task_id = Num 0, task_text = Str ''Drink matcha'', task_done = Bool True\<rparr>]"]
  by (fastforce simp: emptyAction_def)

text \<open>
  Claim C10.  For every task list and every action of type \<^verbatim>\<open>'changed'\<close> with a
  \<^verbatim>\<open>task\<close>, \<^verbatim>\<open>tasksReducer\<close> returns a list of the same length in which, position
  by position, a task whose id is \<^verbatim>\<open>action.task.id\<close> is replaced by
  \<^verbatim>\<open>action.task\<close> and any other task is kept.  If no task of the list has that id, the
  result is the input list: the change is dropped without an error.
\<close>

theorem changed_replaces_matching:
  assumes "type action = Str ''changed''" and "task action = Some t"
  shows "\<exists>ts'. tasksReducer tasks action = Inr ts'
           \<and> length ts' = length tasks
           \<and> (\<forall>i<length tasks.
                 ts' ! i = (if task_id (tasks ! i) = task_id t then t else tasks ! i))
           \<and> ((\<forall>x\<in>set tasks. task_id x \<noteq> task_id t) \<longrightarrow> ts' = tasks)"
proof -
  let ?ts = "map (\<lambda>x. if task_id x = task_id t then t else x) tasks"
  have "tasksReducer tasks action = Inr ?ts"
    using assms by (rule tasksReducer_changed)
  moreover have "length ?ts = length tasks" by simp
  moreover have "\<forall>i<length tasks.
      ?ts ! i = (if task_id (tasks ! i) = task_id t then t else tasks ! i)"
    by simp
  moreover have "(\<forall>x\<in>set tasks. task_id x \<noteq> task_id t) \<longrightarrow> ?ts = tasks"
    by (simp add: map_idI)
  ultimately show ?thesis by blast
qed

theorem changed_replaces_matching_witness:
  "(\<exists>ts'. tasksReducer
             [\<lparr>task_id = Num 0, task_text = Str ''Drink matcha'', task_done = Bool True\<rparr>,
              \<lparr>task_id = Num 1, task_text = Str ''Visit the temple'', task_done = Bool False\<rparr>]
             (emptyAction\<lparr>type := Str ''changed'',
                task := Some \<lparr>task_id = Num 1, task_text = Str ''Visit the temple'',
                              task_done = Bool True\<rparr>\<rparr>)
           = Inr ts'
       \<and> length ts' = 2
       \<and> ts' ! 0 = \<lparr>task_id = Num 0, task_text = Str ''Drink matcha'', task_done = Bool True\<rparr>
       \<and> ts' ! 1
           = \<lparr>task_id = Num 1, task_text = Str ''Visit the temple'', task_done = Bool True\<rparr>)
   \<and> tasksReducer
        [\<lparr>task_id = Num 0, task_text = Str ''Drink matcha'', task_done = Bool True\<rparr>,
         \<lparr>task_id = Num 1, task_text = Str ''Visit the temple'', task_done = Bool False\<rparr>]
        (emptyAction\<lparr>type := Str ''changed'',
           task := Some \<lparr>task_id = Num 7, task_text = Str ''Tea'', task_done = Bool False\<rparr>\<rparr>)
      = Inr [\<lparr>task_id = Num 0, task_text = Str ''Drink matcha'', task_done = Bool True\<rparr>,
             \<lparr>task_id = Num 1, task_text = Str ''Visit the temple'', task_done = Bool False\<rparr>]"
proof -
  let ?t0 = "\<lparr>task_id = Num 0, task_text = Str ''Drink matcha'', task_done = Bool True\<rparr>"
  let ?t1 = "\<lparr>task_id = Num 1, task_text = Str ''Visit the temple'', task_done = Bool False\<rparr>"
  let ?c1 = "\<lparr>task_id = Num 1, task_text = Str ''Visit the temple'', task_done = Bool True\<rparr>"
  let ?c7 = "\<lparr>task_id = Num 7, task_text = Str ''Tea'', task_done = Bool False\<rparr>"
  let ?a1 = "(emptyAction :: task action)\<lparr>type := Str ''changed'', task := Some ?c1\<rparr>"
  let ?a7 = "(emptyAction :: task action)\<lparr>type := Str ''changed'', task := Some ?c7\<rparr>"
  have ty: "type ?a1 = Str ''changed''" "type ?a7 = Str ''changed''"
    by (simp_all add: emptyAction_def)
  have tk: "task ?a1 = Some ?c1" "task ?a7 = Some ?c7"
    by (simp_all add: emptyAction_def)
  obtain ts1 where r1: "tasksReducer [?t0, ?t1] ?a1 = Inr ts1" "length ts1 = 2"
    and at1: "\<forall>i<2. ts1 ! i = (if task_id ([?t0, ?t1] ! i) = Num 1 then ?c1 else [?t0, ?t1] ! i)"
    using changed_replaces_matching [OF ty(1) tk(1), of "[?t0, ?t1]"] by auto
  have "ts1 ! 0 = ?t0" using at1 by (elim allE [of _ 0]) simp
  moreover have "ts1 ! 1 = ?c1" using at1 by (elim allE [of _ 1]) simp
  moreover obtain ts7 where "tasksReducer [?t0, ?t1] ?a7 = Inr ts7"
    and "(\<forall>x\<in>set [?t0, ?t1]. task_id x \<noteq> Num 7) \<longrightarrow> ts7 = [?t0, ?t1]"
    using changed_replaces_matching [OF ty(2) tk(2), of "[?t0, ?t1]"] by auto
  then have "tasksReducer [?t0, ?t1] ?a7 = Inr [?t0, ?t1]" by simp
  ultimately show ?thesis using r1 by blast
qed

end
